theory Spec2Isabelle
  imports Complex_Main "HOL-Library.Signed_Division" "HOL-Library.Multiset"
begin

section \<open>The ticket-sales schema (analytics/models.py)\<close>

text \<open>
  Every model class is a record and every table a list of rows in the order the
  database returns them. Primary keys (Django's implicit \<open>id\<close>) and foreign keys are
  natural numbers, a nullable column is an \<open>option\<close>, a \<open>PositiveIntegerField\<close> is a
  \<open>nat\<close>, a \<open>DecimalField\<close> an exact rational, a \<open>DateTimeField\<close> a point on the
  integer time line. Fields whose name several classes share (\<open>id\<close>, \<open>name\<close>, the
  foreign keys) carry the class name; the others keep the name of models.py.
\<close>

type_synonym pk = nat
type_synonym datetime = int
type_synonym decimal = rat

record Organizer =
  Organizer_id :: pk
  Organizer_name :: string
  contact_email :: string
  description :: string

record Event =
  Event_id :: pk
  Event_name :: string
  Event_organizer :: pk
  start_time :: datetime
  end_time :: datetime
  location :: string
  is_published :: bool
  capacity :: "nat option"
  start_date :: datetime
  base_ticket_price :: decimal

record TicketType =
  TicketType_id :: pk
  TicketType_event :: pk
  TicketType_name :: string
  price :: decimal
  quantity_available :: nat
  is_active :: bool

record Order =
  Order_id :: pk
  Order_customer :: "pk option"
  order_date :: datetime
  total_amount :: decimal
  is_paid :: bool
  discount_code :: "string option"

record TicketPurchase =
  TicketPurchase_id :: pk
  TicketPurchase_order :: pk
  TicketPurchase_ticket_type :: pk
  quantity :: nat
  purchase_price_per_unit :: decimal

record User =
  User_id :: pk
  username :: string

record Store =
  organizers :: "Organizer list"
  events :: "Event list"
  ticket_types :: "TicketType list"
  orders :: "Order list"
  ticket_purchases :: "TicketPurchase list"
  users :: "User list"

text \<open>
  The database keeps primary keys unique within a table. The analytics functions
  follow foreign keys through joins on these keys, so the statements about "the rows
  whose ticket type belongs to the event" are made for stores with unique keys.
\<close>

definition unique_keys :: "Store \<Rightarrow> bool" where
  "unique_keys s \<longleftrightarrow>
     distinct (map Organizer_id (organizers s)) \<and>
     distinct (map Event_id (events s)) \<and>
     distinct (map TicketType_id (ticket_types s)) \<and>
     distinct (map Order_id (orders s)) \<and>
     distinct (map TicketPurchase_id (ticket_purchases s)) \<and>
     distinct (map User_id (users s))"

text \<open>
  Referential integrity of the two foreign keys that the queries join through with an
  inner join: a ticket type names an event of the store, a purchase names a ticket
  type and an order of the store.
\<close>

definition foreign_keys_valid :: "Store \<Rightarrow> bool" where
  "foreign_keys_valid s \<longleftrightarrow>
     (\<forall>tt \<in> set (ticket_types s). TicketType_event tt \<in> Event_id ` set (events s)) \<and>
     (\<forall>tp \<in> set (ticket_purchases s).
        TicketPurchase_ticket_type tp \<in> TicketType_id ` set (ticket_types s) \<and>
        TicketPurchase_order tp \<in> Order_id ` set (orders s))"

section \<open>The query layer: aggregates, key navigation, Python operators\<close>

text \<open>
  SQL \<open>SUM\<close> skips NULL operands and is NULL when no operand is left, which is why the
  source wraps every \<open>Sum\<close> in \<open>Coalesce(..., 0)\<close>. \<open>Sum(expr, filter=Q(...))\<close> hands
  the aggregate a NULL for each joined row that fails the filter. The aggregate is
  called \<open>Sum_aggregate\<close> here, \<open>Sum\<close> being a constant of HOL.
\<close>

definition Sum_aggregate :: "'a::monoid_add option list \<Rightarrow> 'a option" where
  "Sum_aggregate vs =
     (case List.map_filter (\<lambda>v. v) vs of [] \<Rightarrow> None | w # ws \<Rightarrow> Some (sum_list (w # ws)))"

definition Coalesce :: "'a option \<Rightarrow> 'a \<Rightarrow> 'a" where
  "Coalesce v d = (case v of None \<Rightarrow> d | Some x \<Rightarrow> x)"

text \<open>\<open>Count(..., distinct=True)\<close>: the number of distinct non-NULL operands.\<close>

definition Count_distinct :: "'a option list \<Rightarrow> nat" where
  "Count_distinct vs = length (remdups (List.map_filter (\<lambda>v. v) vs))"

text \<open>Python's \<open>x or d\<close> on numbers: \<open>d\<close> when \<open>x\<close> is zero, \<open>x\<close> otherwise.\<close>

definition py_or :: "'a::zero \<Rightarrow> 'a \<Rightarrow> 'a" where
  "py_or x d = (if x = 0 then d else x)"

text \<open>Following a foreign key to the row with that primary key.\<close>

definition get_organizer :: "Store \<Rightarrow> pk \<Rightarrow> Organizer option" where
  "get_organizer s k = find (\<lambda>g. Organizer_id g = k) (organizers s)"

definition get_event :: "Store \<Rightarrow> pk \<Rightarrow> Event option" where
  "get_event s k = find (\<lambda>e. Event_id e = k) (events s)"

definition get_ticket_type :: "Store \<Rightarrow> pk \<Rightarrow> TicketType option" where
  "get_ticket_type s k = find (\<lambda>tt. TicketType_id tt = k) (ticket_types s)"

definition get_order :: "Store \<Rightarrow> pk \<Rightarrow> Order option" where
  "get_order s k = find (\<lambda>ord. Order_id ord = k) (orders s)"

text \<open>
  The lookup paths of the source, written as in the ORM with a double underscore:
  \<open>ticket_type__event\<close>, \<open>order__is_paid\<close>, \<open>order__customer_id\<close> and
  \<open>ticket_type__event__name\<close> of a purchase. A path is \<open>None\<close> when a join partner is
  missing (or, for the customer, when the order is anonymous).
\<close>

definition ticket_type__event :: "Store \<Rightarrow> TicketPurchase \<Rightarrow> pk option" where
  "ticket_type__event s tp =
     map_option TicketType_event (get_ticket_type s (TicketPurchase_ticket_type tp))"

definition order__is_paid :: "Store \<Rightarrow> TicketPurchase \<Rightarrow> bool option" where
  "order__is_paid s tp = map_option is_paid (get_order s (TicketPurchase_order tp))"

definition order__customer_id :: "Store \<Rightarrow> TicketPurchase \<Rightarrow> pk option" where
  "order__customer_id s tp =
     Option.bind (get_order s (TicketPurchase_order tp)) Order_customer"

definition ticket_type__event__name :: "Store \<Rightarrow> TicketPurchase \<Rightarrow> string option" where
  "ticket_type__event__name s tp =
     map_option Event_name (Option.bind (ticket_type__event s tp) (get_event s))"

section \<open>get_upcoming_events_summary\<close>

text \<open>
  \<open>TicketPurchase.objects.filter(ticket_type__event=event, order__is_paid=True)\<close>,
  the row set under both aggregates of the loop body.
\<close>

definition paid_purchases_of_event :: "Store \<Rightarrow> Event \<Rightarrow> TicketPurchase list" where
  "paid_purchases_of_event s event =
     filter (\<lambda>tp. ticket_type__event s tp = Some (Event_id event) \<and>
                   order__is_paid s tp = Some True)
       (ticket_purchases s)"

text \<open>\<open>event.ticket_types\<close>, the reverse side of \<open>TicketType.event\<close>.\<close>

definition Event_ticket_types :: "Store \<Rightarrow> Event \<Rightarrow> TicketType list" where
  "Event_ticket_types s event =
     filter (\<lambda>tt. TicketType_event tt = Event_id event) (ticket_types s)"

definition total_tickets_sold_of :: "Store \<Rightarrow> Event \<Rightarrow> int" where
  "total_tickets_sold_of s event =
     Coalesce (Sum_aggregate (map (\<lambda>tp. Some (int (quantity tp)))
                                  (paid_purchases_of_event s event))) 0"

text \<open>
  The summand of the revenue aggregate on a row whose two columns may be NULL:
  \<open>Coalesce(F('quantity'), Decimal('0.0')) * Coalesce(F('purchase_price_per_unit'),
  Decimal('0.0'))\<close>. Both columns are declared NOT NULL in models.py, so the rows of a
  store always pass \<open>Some\<close>.
\<close>

definition revenue_term :: "nat option \<Rightarrow> decimal option \<Rightarrow> decimal" where
  "revenue_term q p = Coalesce (map_option of_nat q) 0 * Coalesce p 0"

definition total_revenue_of :: "Store \<Rightarrow> Event \<Rightarrow> decimal" where
  "total_revenue_of s event =
     Coalesce (Sum_aggregate
        (map (\<lambda>tp. Some (revenue_term (Some (quantity tp)) (Some (purchase_price_per_unit tp))))
             (paid_purchases_of_event s event))) 0"

definition total_available_of :: "Store \<Rightarrow> Event \<Rightarrow> int" where
  "total_available_of s event =
     Coalesce (Sum_aggregate (map (\<lambda>tt. Some (int (quantity_available tt)))
                                  (Event_ticket_types s event))) 0"

definition tickets_remaining_of :: "Store \<Rightarrow> Event \<Rightarrow> int" where
  "tickets_remaining_of s event =
     (case capacity event of
        Some c \<Rightarrow> max (int c - py_or (total_tickets_sold_of s event) 0) 0
      | None \<Rightarrow> max (py_or (total_available_of s event) 0
                       - py_or (total_tickets_sold_of s event) 0) 0)"

text \<open>
  One dictionary of the result list. \<open>total_revenue\<close> is \<open>float(total_revenue or 0)\<close>:
  the conversion of the exact decimal to a binary float is the parameter \<open>float\<close> of
  the model, so that nothing is assumed about its rounding.
\<close>

record 'f EventSummary =
  event_id :: pk
  event_name :: string
  total_tickets_sold :: int
  total_revenue :: 'f
  tickets_remaining :: int
  organizer_name :: string

definition event_summary :: "(decimal \<Rightarrow> 'f) \<Rightarrow> Store \<Rightarrow> Event \<Rightarrow> 'f EventSummary" where
  "event_summary float s event =
     \<lparr> event_id = Event_id event,
       event_name = Event_name event,
       total_tickets_sold = py_or (total_tickets_sold_of s event) 0,
       total_revenue = float (py_or (total_revenue_of s event) 0),
       tickets_remaining = py_or (tickets_remaining_of s event) 0,
       organizer_name = (case get_organizer s (Event_organizer event) of
                           Some g \<Rightarrow> Organizer_name g | None \<Rightarrow> '''') \<rparr>"

text \<open>
  \<open>now\<close> is the value of \<open>timezone.now()\<close> at the call. The events come in table
  order, one dictionary each.
\<close>

definition get_upcoming_events_summary ::
    "(decimal \<Rightarrow> 'f) \<Rightarrow> datetime \<Rightarrow> Store \<Rightarrow> 'f EventSummary list" where
  "get_upcoming_events_summary float now s =
     map (event_summary float s)
         (filter (\<lambda>e. is_published e = True \<and> now \<le> end_time e) (events s))"

section \<open>get_top_selling_ticket_types\<close>

text \<open>
  \<open>annotate\<close> reaches a reverse relation through a LEFT OUTER JOIN: a row that has no
  partner still yields one joined row, with NULL in the partner's columns.
\<close>

definition left_join :: "'a list \<Rightarrow> 'a option list" where
  "left_join partners = (case partners of [] \<Rightarrow> [None] | _ # _ \<Rightarrow> map Some partners)"

text \<open>\<open>ticket_type.purchases\<close>, the reverse side of \<open>TicketPurchase.ticket_type\<close>.\<close>

definition TicketType_purchases :: "Store \<Rightarrow> TicketType \<Rightarrow> TicketPurchase list" where
  "TicketType_purchases s tt =
     filter (\<lambda>tp. TicketPurchase_ticket_type tp = TicketType_id tt) (ticket_purchases s)"

text \<open>
  The operand \<open>Sum('purchases__quantity', filter=Q(purchases__order__is_paid=True))\<close>
  sees on one joined row: the quantity when the purchase's order is paid, NULL
  otherwise.
\<close>

definition paid_quantity :: "Store \<Rightarrow> TicketPurchase option \<Rightarrow> int option" where
  "paid_quantity s joined =
     (case joined of
        None \<Rightarrow> None
      | Some tp \<Rightarrow> if order__is_paid s tp = Some True then Some (int (quantity tp)) else None)"

definition units_sold_of :: "Store \<Rightarrow> TicketType \<Rightarrow> int" where
  "units_sold_of s tt =
     Coalesce (Sum_aggregate (map (paid_quantity s) (left_join (TicketType_purchases s tt)))) 0"

record AnnotatedTicketType =
  annotated_ticket_type :: TicketType
  units_sold :: int
  event__name :: string

text \<open>
  \<open>event_name=F('event__name')\<close> joins the ticket type to its event with an inner join
  (the foreign key is NOT NULL), so a ticket type is annotated when its event exists.
\<close>

definition annotate_ticket_type :: "Store \<Rightarrow> TicketType \<Rightarrow> AnnotatedTicketType option" where
  "annotate_ticket_type s tt =
     map_option (\<lambda>e. \<lparr> annotated_ticket_type = tt,
                        units_sold = units_sold_of s tt,
                        event__name = Event_name e \<rparr>)
                (get_event s (TicketType_event tt))"

text \<open>
  \<open>order_by('-key')\<close>: descending in the key. The source names no second key, so the
  database is free in the order of ties; the model keeps rows with equal keys in table
  order (a stable sort).
\<close>

definition order_by_desc :: "('a \<Rightarrow> int) \<Rightarrow> 'a list \<Rightarrow> 'a list" where
  "order_by_desc key rows = sort_key (\<lambda>r. - key r) rows"

datatype error = NegativeIndexing | DivisionByZero

text \<open>The slice \<open>[:n]\<close> of a queryset: Django refuses a negative bound.\<close>

definition slice_to :: "int \<Rightarrow> 'a list \<Rightarrow> error + 'a list" where
  "slice_to n rows = (if n < 0 then Inl NegativeIndexing else Inr (take (nat n) rows))"

definition get_top_selling_ticket_types ::
    "int \<Rightarrow> Store \<Rightarrow> error + AnnotatedTicketType list" where
  "get_top_selling_ticket_types num_types s =
     slice_to num_types
       (order_by_desc units_sold
          (List.map_filter (annotate_ticket_type s) (ticket_types s)))"

section \<open>get_customer_purchase_statistics\<close>

text \<open>\<open>user.orders\<close>, the reverse side of \<open>Order.customer\<close>.\<close>

definition User_orders :: "Store \<Rightarrow> User \<Rightarrow> Order list" where
  "User_orders s u = filter (\<lambda>ord. Order_customer ord = Some (User_id u)) (orders s)"

definition total_orders_placed_of :: "Store \<Rightarrow> User \<Rightarrow> nat" where
  "total_orders_placed_of s u =
     Count_distinct (map (map_option Order_id) (left_join (User_orders s u)))"

text \<open>The operand of \<open>Sum('orders__total_amount', filter=Q(orders__is_paid=True))\<close>.\<close>

definition paid_amount :: "Order option \<Rightarrow> decimal option" where
  "paid_amount joined =
     (case joined of
        None \<Rightarrow> None
      | Some ord \<Rightarrow> if is_paid ord = True then Some (total_amount ord) else None)"

definition total_amount_spent_of :: "Store \<Rightarrow> User \<Rightarrow> decimal" where
  "total_amount_spent_of s u =
     Coalesce (Sum_aggregate (map paid_amount (left_join (User_orders s u)))) 0"

text \<open>
  \<open>event_counts\<close>: the customer's purchases in paid orders, grouped by
  \<open>values('ticket_type__event__name')\<close>, that is by the event's name, each group with
  \<open>total=Sum('quantity')\<close>, ordered by \<open>-total\<close>. A group has at least one row and
  \<open>quantity\<close> is NOT NULL, so the total of a group is never NULL. Groups are listed in
  the order of their first row before the ordering is applied.
\<close>

definition customer_paid_purchases :: "Store \<Rightarrow> pk \<Rightarrow> TicketPurchase list" where
  "customer_paid_purchases s customer_id =
     filter (\<lambda>tp. order__customer_id s tp = Some customer_id \<and>
                   order__is_paid s tp = Some True)
       (ticket_purchases s)"

definition named_quantities :: "Store \<Rightarrow> pk \<Rightarrow> (string \<times> int) list" where
  "named_quantities s customer_id =
     List.map_filter
       (\<lambda>tp. map_option (\<lambda>name. (name, int (quantity tp))) (ticket_type__event__name s tp))
       (customer_paid_purchases s customer_id)"

definition group_total :: "(string \<times> int) list \<Rightarrow> string \<Rightarrow> int" where
  "group_total rows name = sum_list (map snd (filter (\<lambda>row. fst row = name) rows))"

definition event_counts :: "Store \<Rightarrow> pk \<Rightarrow> (string \<times> int) list" where
  "event_counts s customer_id =
     (let rows = named_quantities s customer_id
      in order_by_desc snd
           (map (\<lambda>name. (name, group_total rows name)) (remdups (map fst rows))))"

record AnnotatedUser =
  annotated_user :: User
  total_orders_placed :: nat
  total_amount_spent :: decimal
  most_purchased_event_name :: "string option"

text \<open>
  \<open>user_qs.first()\<close> is \<open>None\<close> on an empty queryset, and the function then returns
  \<open>None\<close>; otherwise the annotated user receives the attribute.
\<close>

definition get_customer_purchase_statistics :: "pk \<Rightarrow> Store \<Rightarrow> AnnotatedUser option" where
  "get_customer_purchase_statistics customer_id s =
     (let most_purchased =
            (case event_counts s customer_id of
               [] \<Rightarrow> None
             | row # _ \<Rightarrow> Some (fst row))
      in case filter (\<lambda>u. User_id u = customer_id) (users s) of
           [] \<Rightarrow> None
         | u # _ \<Rightarrow>
             Some \<lparr> annotated_user = u,
                    total_orders_placed = total_orders_placed_of s u,
                    total_amount_spent = total_amount_spent_of s u,
                    most_purchased_event_name = most_purchased \<rparr>)"

section \<open>get_events_with_low_capacity_remaining\<close>

text \<open>
  The joined rows of one event under
  \<open>Sum('ticket_types__purchases__quantity', filter=...)\<close>: the event left-joined to
  its ticket types, each left-joined to its purchases.
\<close>

definition Event_purchase_rows :: "Store \<Rightarrow> Event \<Rightarrow> TicketPurchase option list" where
  "Event_purchase_rows s e =
     concat (map (\<lambda>joined. case joined of
                              None \<Rightarrow> [None]
                            | Some tt \<Rightarrow> left_join (TicketType_purchases s tt))
                 (left_join (Event_ticket_types s e)))"

definition tickets_sold_of :: "Store \<Rightarrow> Event \<Rightarrow> int" where
  "tickets_sold_of s e =
     Coalesce (Sum_aggregate (map (paid_quantity s) (Event_purchase_rows s e))) 0"

text \<open>
  The operator \<open>/\<close> of the annotation is evaluated by the database on integer operands
  (\<open>100\<close>, the integer column \<open>capacity\<close>, an integer sum): SQL integer division, which
  truncates toward zero (PostgreSQL and SQLite, the default backend). A zero divisor is
  the error \<open>DivisionByZero\<close> (PostgreSQL raises it and the query fails; SQLite
  evaluates the quotient to NULL instead).
\<close>

definition sql_divide :: "int \<Rightarrow> int \<Rightarrow> error + int" where
  "sql_divide a b = (if b = 0 then Inl DivisionByZero else Inr (a sdiv b))"

record AnnotatedEvent =
  annotated_event :: Event
  tickets_sold :: int
  percentage_tickets_remaining :: int

definition annotate_event :: "Store \<Rightarrow> Event \<Rightarrow> nat \<Rightarrow> error + AnnotatedEvent" where
  "annotate_event s e c =
     (case sql_divide (100 * (int c - tickets_sold_of s e)) (int c) of
        Inl err \<Rightarrow> Inl err
      | Inr p \<Rightarrow> Inr \<lparr> annotated_event = e,
                       tickets_sold = tickets_sold_of s e,
                       percentage_tickets_remaining = p \<rparr>)"

text \<open>The query fails as a whole when the annotation of one row fails.\<close>

fun all_rows :: "(error + 'a) list \<Rightarrow> error + 'a list" where
  "all_rows [] = Inr []"
| "all_rows (r # rs) =
     (case r of
        Inl err \<Rightarrow> Inl err
      | Inr x \<Rightarrow> (case all_rows rs of Inl err \<Rightarrow> Inl err | Inr xs \<Rightarrow> Inr (x # xs)))"

text \<open>
  \<open>Event.objects.filter(capacity__isnull=False)\<close>, annotated, then filtered by
  \<open>percentage_tickets_remaining__lte=threshold_percentage\<close>. The threshold is an
  integer, as the docstring declares it.
\<close>

definition get_events_with_low_capacity_remaining ::
    "int \<Rightarrow> Store \<Rightarrow> error + AnnotatedEvent list" where
  "get_events_with_low_capacity_remaining threshold_percentage s =
     (case all_rows (List.map_filter (\<lambda>e. map_option (annotate_event s e) (capacity e))
                                      (events s)) of
        Inl err \<Rightarrow> Inl err
      | Inr rows \<Rightarrow>
          Inr (filter (\<lambda>r. percentage_tickets_remaining r \<le> threshold_percentage) rows))"

section \<open>The row sets and totals the specification names\<close>

text \<open>
  The specification speaks of rows by their relations, not by joins: a purchase "whose
  TicketType belongs to this Event", "whose Order is paid", an order "of the customer".
  These predicates say so over the tables, and the totals below add up over them.
\<close>

definition belongs_to_event :: "Store \<Rightarrow> Event \<Rightarrow> TicketPurchase \<Rightarrow> bool" where
  "belongs_to_event s e tp \<longleftrightarrow>
     (\<exists>tt \<in> set (ticket_types s).
        TicketType_id tt = TicketPurchase_ticket_type tp \<and> TicketType_event tt = Event_id e)"

definition in_paid_order :: "Store \<Rightarrow> TicketPurchase \<Rightarrow> bool" where
  "in_paid_order s tp \<longleftrightarrow>
     (\<exists>ord \<in> set (orders s). Order_id ord = TicketPurchase_order tp \<and> is_paid ord)"

definition in_paid_order_of :: "Store \<Rightarrow> pk \<Rightarrow> TicketPurchase \<Rightarrow> bool" where
  "in_paid_order_of s customer_id tp \<longleftrightarrow>
     (\<exists>ord \<in> set (orders s).
        Order_id ord = TicketPurchase_order tp \<and> Order_customer ord = Some customer_id \<and>
        is_paid ord)"

text \<open>The paid quantity sold for an event, over all its ticket types.\<close>

definition paid_quantity_of_event :: "Store \<Rightarrow> Event \<Rightarrow> int" where
  "paid_quantity_of_event s e =
     (\<Sum>tp\<leftarrow>filter (\<lambda>tp. belongs_to_event s e tp \<and> in_paid_order s tp) (ticket_purchases s).
        int (quantity tp))"

text \<open>The paid quantity sold of one ticket type.\<close>

definition paid_quantity_of_ticket_type :: "Store \<Rightarrow> TicketType \<Rightarrow> int" where
  "paid_quantity_of_ticket_type s tt =
     (\<Sum>tp\<leftarrow>filter (\<lambda>tp. TicketPurchase_ticket_type tp = TicketType_id tt \<and> in_paid_order s tp)
                   (ticket_purchases s).
        int (quantity tp))"

text \<open>
  What one customer bought of one event in paid orders, and what the customer bought
  of all events that bear one name.
\<close>

definition customer_quantity_of_event :: "Store \<Rightarrow> pk \<Rightarrow> Event \<Rightarrow> int" where
  "customer_quantity_of_event s customer_id e =
     (\<Sum>tp\<leftarrow>filter (\<lambda>tp. belongs_to_event s e tp \<and> in_paid_order_of s customer_id tp)
                   (ticket_purchases s).
        int (quantity tp))"

definition customer_quantity_of_name :: "Store \<Rightarrow> pk \<Rightarrow> string \<Rightarrow> int" where
  "customer_quantity_of_name s customer_id name =
     (\<Sum>e\<leftarrow>filter (\<lambda>e. Event_name e = name) (events s).
        customer_quantity_of_event s customer_id e)"

text \<open>
  The percentage of section 4.4 of the specification, as an exact fraction:
  \<open>100 \<times> (capacity \<minus> tickets_sold) / capacity\<close>.
\<close>

definition exact_percentage :: "nat \<Rightarrow> int \<Rightarrow> rat" where
  "exact_percentage c sold = 100 * (of_nat c - of_int sold) / of_nat c"

text \<open>
  The selection of section 4.4 in the specification's words: the events with a
  capacity whose exact percentage is at most the threshold.
\<close>

definition events_by_exact_percentage :: "int \<Rightarrow> Store \<Rightarrow> Event list" where
  "events_by_exact_percentage threshold_percentage s =
     filter (\<lambda>e. case capacity e of
                    None \<Rightarrow> False
                  | Some c \<Rightarrow>
                      exact_percentage c (paid_quantity_of_event s e)
                        \<le> of_int threshold_percentage)
            (events s)"

section \<open>Example stores\<close>

definition mk_event :: "pk \<Rightarrow> string \<Rightarrow> datetime \<Rightarrow> bool \<Rightarrow> nat option \<Rightarrow> Event" where
  "mk_event k name ends published cap =
     \<lparr> Event_id = k, Event_name = name, Event_organizer = 1, start_time = 0,
       end_time = ends, location = ''Hall'', is_published = published, capacity = cap,
       start_date = 0, base_ticket_price = 10 \<rparr>"

definition mk_ticket_type :: "pk \<Rightarrow> pk \<Rightarrow> nat \<Rightarrow> TicketType" where
  "mk_ticket_type k ev available =
     \<lparr> TicketType_id = k, TicketType_event = ev, TicketType_name = ''Standard'',
       price = 10, quantity_available = available, is_active = True \<rparr>"

definition mk_order :: "pk \<Rightarrow> pk option \<Rightarrow> decimal \<Rightarrow> bool \<Rightarrow> Order" where
  "mk_order k cust amount paid =
     \<lparr> Order_id = k, Order_customer = cust, order_date = 0, total_amount = amount,
       is_paid = paid, discount_code = None \<rparr>"

definition mk_purchase :: "pk \<Rightarrow> pk \<Rightarrow> pk \<Rightarrow> nat \<Rightarrow> decimal \<Rightarrow> TicketPurchase" where
  "mk_purchase k ord tt q unit_price =
     \<lparr> TicketPurchase_id = k, TicketPurchase_order = ord, TicketPurchase_ticket_type = tt,
       quantity = q, purchase_price_per_unit = unit_price \<rparr>"

definition the_organizer :: Organizer where
  "the_organizer =
     \<lparr> Organizer_id = 1, Organizer_name = ''Acme'', contact_email = ''acme@example.org'',
       description = ''none'' \<rparr>"

text \<open>
  The scenarios of the specification in one store, read at time 100. Event E (capacity
  100) has paid purchases of 30 and 20 and an unpaid one of 5; F has no capacity, one
  ticket type with 40 available and no purchase; G (capacity 10) is oversold with 12;
  H is unpublished; P ended at 50. Carol (user 1) has a paid order of 75.00 and an
  unpaid one of 20.00; Dave (user 2) has no order; order 3 is anonymous.
\<close>

definition sample_store :: Store where
  "sample_store =
     \<lparr> organizers = [the_organizer],
       events = [mk_event 1 ''E'' 200 True (Some 100), mk_event 2 ''F'' 200 True None,
                 mk_event 3 ''G'' 100 True (Some 10), mk_event 4 ''H'' 200 False None,
                 mk_event 5 ''P'' 50 True (Some 20)],
       ticket_types = [mk_ticket_type 1 1 100, mk_ticket_type 2 2 40,
                       mk_ticket_type 3 3 10, mk_ticket_type 4 1 5],
       orders = [mk_order 1 (Some 1) 75 True, mk_order 2 (Some 1) 20 False,
                 mk_order 3 None 500 True],
       ticket_purchases = [mk_purchase 1 1 1 30 (3 / 2), mk_purchase 2 3 1 20 2,
                           mk_purchase 3 2 1 5 2, mk_purchase 4 3 3 12 1],
       users = [\<lparr> User_id = 1, username = ''carol'' \<rparr>, \<lparr> User_id = 2, username = ''dave'' \<rparr>] \<rparr>"

text \<open>
  One event of capacity 3 with one paid ticket, and one of capacity 1000 with 1001
  paid tickets.
\<close>

definition fraction_store :: Store where
  "fraction_store =
     \<lparr> organizers = [the_organizer],
       events = [mk_event 1 ''Trio'' 200 True (Some 3),
                 mk_event 2 ''Arena'' 200 True (Some 1000)],
       ticket_types = [mk_ticket_type 1 1 3, mk_ticket_type 2 2 1000],
       orders = [mk_order 1 None 10 True],
       ticket_purchases = [mk_purchase 1 1 1 1 10, mk_purchase 2 1 2 1001 10],
       users = [] \<rparr>"

text \<open>One event whose capacity is set to 0, which the column type allows.\<close>

definition zero_capacity_store :: Store where
  "zero_capacity_store =
     \<lparr> organizers = [the_organizer],
       events = [mk_event 1 ''Closed'' 200 True (Some 0)],
       ticket_types = [], orders = [], ticket_purchases = [], users = [] \<rparr>"

text \<open>
  Two different events share the name Gala; Carol bought 3 tickets of each, and 5 of
  the event Expo, all in one paid order.
\<close>

definition same_name_store :: Store where
  "same_name_store =
     \<lparr> organizers = [the_organizer],
       events = [mk_event 1 ''Gala'' 200 True None, mk_event 2 ''Gala'' 300 True None,
                 mk_event 3 ''Expo'' 200 True None],
       ticket_types = [mk_ticket_type 1 1 50, mk_ticket_type 2 2 50, mk_ticket_type 3 3 50],
       orders = [mk_order 1 (Some 1) 110 True],
       ticket_purchases = [mk_purchase 1 1 1 3 10, mk_purchase 2 1 2 3 10,
                           mk_purchase 3 1 3 5 10],
       users = [\<lparr> User_id = 1, username = ''carol'' \<rparr>] \<rparr>"

section \<open>Facts about the query layer\<close>

lemma find_by_key:
  "distinct (map f xs) \<Longrightarrow> (find (\<lambda>y. f y = k) xs = Some x) \<longleftrightarrow> (x \<in> set xs \<and> f x = k)"
  by (induction xs) (auto simp: image_iff)

lemma Coalesce_Sum_aggregate:
  "Coalesce (Sum_aggregate vs) 0 = sum_list (List.map_filter (\<lambda>v. v) vs)"
  by (cases "List.map_filter (\<lambda>v. v) vs") (simp_all add: Coalesce_def Sum_aggregate_def)

lemma Coalesce_Sum_Some:
  "Coalesce (Sum_aggregate (map (\<lambda>x. Some (g x)) xs)) 0 = sum_list (map g xs)"
  by (simp add: Coalesce_Sum_aggregate List.map_filter_def comp_def)

lemma py_or_zero: "py_or x 0 = x"
  by (simp add: py_or_def)

lemma ticket_type__event_iff:
  "unique_keys s \<Longrightarrow>
   ticket_type__event s tp = Some (Event_id e) \<longleftrightarrow> belongs_to_event s e tp"
  by (auto simp: ticket_type__event_def get_ticket_type_def belongs_to_event_def
        unique_keys_def find_by_key)

lemma order__is_paid_iff:
  "unique_keys s \<Longrightarrow> order__is_paid s tp = Some True \<longleftrightarrow> in_paid_order s tp"
  by (auto simp: order__is_paid_def get_order_def in_paid_order_def unique_keys_def find_by_key)

lemma paid_purchases_of_event_eq:
  "unique_keys s \<Longrightarrow>
   paid_purchases_of_event s e =
     filter (\<lambda>tp. belongs_to_event s e tp \<and> in_paid_order s tp) (ticket_purchases s)"
  by (simp add: paid_purchases_of_event_def ticket_type__event_iff order__is_paid_iff)

lemma total_tickets_sold_of_eq:
  "unique_keys s \<Longrightarrow> total_tickets_sold_of s e = paid_quantity_of_event s e"
  by (simp add: total_tickets_sold_of_def Coalesce_Sum_Some paid_purchases_of_event_eq
        paid_quantity_of_event_def)

lemma revenue_term_Some: "revenue_term (Some q) (Some p) = of_nat q * p"
  by (simp add: revenue_term_def Coalesce_def)

lemma total_revenue_of_eq:
  "unique_keys s \<Longrightarrow>
   total_revenue_of s e =
     (\<Sum>tp\<leftarrow>filter (\<lambda>tp. belongs_to_event s e tp \<and> in_paid_order s tp) (ticket_purchases s).
        of_nat (quantity tp) * purchase_price_per_unit tp)"
  by (simp add: total_revenue_of_def Coalesce_Sum_Some paid_purchases_of_event_eq
        revenue_term_Some)

lemma total_available_of_eq:
  "total_available_of s e =
     (\<Sum>tt\<leftarrow>filter (\<lambda>tt. TicketType_event tt = Event_id e) (ticket_types s).
        int (quantity_available tt))"
  by (simp add: total_available_of_def Coalesce_Sum_Some Event_ticket_types_def)

lemma unique_keys_sample_store: "unique_keys sample_store"
  by code_simp

section \<open>Upcoming events summary\<close>

text \<open>
  C9. \<open>get_upcoming_events_summary\<close> returns one summary per event that is published
  and whose end time is not before the current time, in table order, and no summary of
  any other event. The \<open>total_tickets_sold\<close> of each is the sum of \<open>quantity\<close> over the
  purchases whose ticket type belongs to the event and whose order is paid; it is a
  number in every case, and 0 when there is no such purchase.
\<close>

theorem upcoming_events_total_tickets_sold:
  assumes "unique_keys s"
  shows "list_all2
           (\<lambda>r e. event_id r = Event_id e \<and>
                   total_tickets_sold r = paid_quantity_of_event s e \<and>
                   (filter (\<lambda>tp. belongs_to_event s e tp \<and> in_paid_order s tp)
                           (ticket_purchases s) = [] \<longrightarrow> total_tickets_sold r = 0))
           (get_upcoming_events_summary float now s)
           (filter (\<lambda>e. is_published e \<and> now \<le> end_time e) (events s)) \<and>
         (\<forall>r \<in> set (get_upcoming_events_summary float now s).
            \<exists>e \<in> set (events s). event_id r = Event_id e \<and> is_published e \<and> now \<le> end_time e)"
proof -
  have sold: "total_tickets_sold (event_summary float s e) = paid_quantity_of_event s e" for e
    using assms by (simp add: event_summary_def py_or_zero total_tickets_sold_of_eq)
  have "list_all2
           (\<lambda>r e. event_id r = Event_id e \<and>
                   total_tickets_sold r = paid_quantity_of_event s e \<and>
                   (filter (\<lambda>tp. belongs_to_event s e tp \<and> in_paid_order s tp)
                           (ticket_purchases s) = [] \<longrightarrow> total_tickets_sold r = 0))
           (get_upcoming_events_summary float now s)
           (filter (\<lambda>e. is_published e \<and> now \<le> end_time e) (events s))"
    using sold
    by (simp add: get_upcoming_events_summary_def list_all2_map1 list_all2_same
          paid_quantity_of_event_def event_summary_def)
  moreover have "\<forall>r \<in> set (get_upcoming_events_summary float now s).
            \<exists>e \<in> set (events s). event_id r = Event_id e \<and> is_published e \<and> now \<le> end_time e"
    by (auto simp: get_upcoming_events_summary_def event_summary_def)
  ultimately show ?thesis by blast
qed

theorem upcoming_events_total_tickets_sold_witness:
  "unique_keys sample_store \<and>
   map (\<lambda>r. (event_id r, total_tickets_sold r))
       (get_upcoming_events_summary (\<lambda>x. x) 100 sample_store) = [(1, 50), (2, 0), (3, 12)] \<and>
   list_all2
     (\<lambda>r e. event_id r = Event_id e \<and>
             total_tickets_sold r = paid_quantity_of_event sample_store e \<and>
             (filter (\<lambda>tp. belongs_to_event sample_store e tp \<and> in_paid_order sample_store tp)
                     (ticket_purchases sample_store) = [] \<longrightarrow> total_tickets_sold r = 0))
     (get_upcoming_events_summary (\<lambda>x. x) 100 sample_store)
     (filter (\<lambda>e. is_published e \<and> 100 \<le> end_time e) (events sample_store))"
proof -
  have computed: "map (\<lambda>r. (event_id r, total_tickets_sold r))
       (get_upcoming_events_summary (\<lambda>x. x) 100 sample_store) = [(1, 50), (2, 0), (3, 12)]"
    by code_simp
  show ?thesis
    using upcoming_events_total_tickets_sold [OF unique_keys_sample_store, of "\<lambda>x. x" 100]
      unique_keys_sample_store computed
    by blast
qed

text \<open>
  C1. In every summary, \<open>tickets_remaining\<close> is \<open>max(capacity - total_tickets_sold, 0)\<close>
  when the event has a capacity, and \<open>max(total_available - total_tickets_sold, 0)\<close>
  when it has none, where \<open>total_available\<close> is the sum of \<open>quantity_available\<close> over
  the event's ticket types (0 when it has none); it is never negative.
\<close>

theorem tickets_remaining_value:
  "list_all2
     (\<lambda>r e. event_id r = Event_id e \<and>
             tickets_remaining r =
               (case capacity e of
                  Some c \<Rightarrow> max (int c - total_tickets_sold r) 0
                | None \<Rightarrow>
                    max ((\<Sum>tt\<leftarrow>filter (\<lambda>tt. TicketType_event tt = Event_id e) (ticket_types s).
                            int (quantity_available tt)) - total_tickets_sold r) 0) \<and>
             0 \<le> tickets_remaining r)
     (get_upcoming_events_summary float now s)
     (filter (\<lambda>e. is_published e \<and> now \<le> end_time e) (events s))"
  by (simp add: get_upcoming_events_summary_def list_all2_map1 list_all2_same event_summary_def
        tickets_remaining_of_def total_available_of_eq py_or_zero split: option.split)

theorem tickets_remaining_value_witness:
  "map (\<lambda>r. (event_id r, total_tickets_sold r, tickets_remaining r))
       (get_upcoming_events_summary (\<lambda>x. x) 100 sample_store) =
     [(1, 50, 50), (2, 0, 40), (3, 12, 0)] \<and>
   list_all2
     (\<lambda>r e. event_id r = Event_id e \<and>
             tickets_remaining r =
               (case capacity e of
                  Some c \<Rightarrow> max (int c - total_tickets_sold r) 0
                | None \<Rightarrow>
                    max ((\<Sum>tt\<leftarrow>filter (\<lambda>tt. TicketType_event tt = Event_id e)
                                       (ticket_types sample_store).
                            int (quantity_available tt)) - total_tickets_sold r) 0) \<and>
             0 \<le> tickets_remaining r)
     (get_upcoming_events_summary (\<lambda>x. x) 100 sample_store)
     (filter (\<lambda>e. is_published e \<and> 100 \<le> end_time e) (events sample_store))"
proof -
  have computed: "map (\<lambda>r. (event_id r, total_tickets_sold r, tickets_remaining r))
       (get_upcoming_events_summary (\<lambda>x. x) 100 sample_store) =
     [(1, 50, 50), (2, 0, 40), (3, 12, 0)]"
    by code_simp
  show ?thesis
    using tickets_remaining_value [where float = "\<lambda>x. x" and now = 100 and s = sample_store] computed by blast
qed

text \<open>
  C4. In every summary, \<open>total_revenue\<close> is the float of the sum of
  \<open>quantity * purchase_price_per_unit\<close> over exactly the purchases whose ticket type
  belongs to the event and whose order is paid; a NULL factor counts as 0 in the
  product; without such a purchase the revenue is the float of 0.
\<close>

theorem total_revenue_value:
  assumes "unique_keys s"
  shows "list_all2
           (\<lambda>r e. event_id r = Event_id e \<and>
                   total_revenue r =
                     float (\<Sum>tp\<leftarrow>filter (\<lambda>tp. belongs_to_event s e tp \<and> in_paid_order s tp)
                                          (ticket_purchases s).
                              of_nat (quantity tp) * purchase_price_per_unit tp) \<and>
                   (filter (\<lambda>tp. belongs_to_event s e tp \<and> in_paid_order s tp)
                           (ticket_purchases s) = [] \<longrightarrow> total_revenue r = float 0))
           (get_upcoming_events_summary float now s)
           (filter (\<lambda>e. is_published e \<and> now \<le> end_time e) (events s)) \<and>
         revenue_term (Some q) (Some p) = of_nat q * p \<and>
         revenue_term None (Some p) = 0 \<and> revenue_term (Some q) None = 0 \<and>
         revenue_term None None = 0"
proof -
  have rev: "total_revenue (event_summary float s e) =
      float (\<Sum>tp\<leftarrow>filter (\<lambda>tp. belongs_to_event s e tp \<and> in_paid_order s tp) (ticket_purchases s).
               of_nat (quantity tp) * purchase_price_per_unit tp)" for e
    using assms by (simp add: event_summary_def py_or_zero total_revenue_of_eq revenue_term_Some)
  have "list_all2
           (\<lambda>r e. event_id r = Event_id e \<and>
                   total_revenue r =
                     float (\<Sum>tp\<leftarrow>filter (\<lambda>tp. belongs_to_event s e tp \<and> in_paid_order s tp)
                                          (ticket_purchases s).
                              of_nat (quantity tp) * purchase_price_per_unit tp) \<and>
                   (filter (\<lambda>tp. belongs_to_event s e tp \<and> in_paid_order s tp)
                           (ticket_purchases s) = [] \<longrightarrow> total_revenue r = float 0))
           (get_upcoming_events_summary float now s)
           (filter (\<lambda>e. is_published e \<and> now \<le> end_time e) (events s))"
    using rev
    by (simp add: get_upcoming_events_summary_def list_all2_map1 list_all2_same event_summary_def)
  moreover have "revenue_term (Some q) (Some p) = of_nat q * p \<and>
         revenue_term None (Some p) = 0 \<and> revenue_term (Some q) None = 0 \<and>
         revenue_term None None = 0"
    by (simp add: revenue_term_def Coalesce_def)
  ultimately show ?thesis by blast
qed

theorem total_revenue_value_witness:
  "unique_keys sample_store \<and>
   map (\<lambda>r. (event_id r, total_revenue r))
       (get_upcoming_events_summary (\<lambda>x. x) 100 sample_store) = [(1, 85), (2, 0), (3, 12)] \<and>
   list_all2
     (\<lambda>r e. event_id r = Event_id e \<and>
             total_revenue r =
               (\<Sum>tp\<leftarrow>filter (\<lambda>tp. belongs_to_event sample_store e tp \<and>
                                   in_paid_order sample_store tp)
                             (ticket_purchases sample_store).
                  of_nat (quantity tp) * purchase_price_per_unit tp) \<and>
             (filter (\<lambda>tp. belongs_to_event sample_store e tp \<and> in_paid_order sample_store tp)
                     (ticket_purchases sample_store) = [] \<longrightarrow> total_revenue r = 0))
     (get_upcoming_events_summary (\<lambda>x. x) 100 sample_store)
     (filter (\<lambda>e. is_published e \<and> 100 \<le> end_time e) (events sample_store))"
proof -
  have computed: "map (\<lambda>r. (event_id r, total_revenue r))
       (get_upcoming_events_summary (\<lambda>x. x) 100 sample_store) = [(1, 85), (2, 0), (3, 12)]"
    by code_simp
  show ?thesis
    using total_revenue_value [OF unique_keys_sample_store, where float = "\<lambda>x. x" and now = 100]
      unique_keys_sample_store computed
    by blast
qed

section \<open>Top-selling ticket types\<close>

lemma map_filter_map_comp:
  "List.map_filter f (map g xs) = List.map_filter (\<lambda>x. f (g x)) xs"
  by (induction xs) (simp_all add: List.map_filter_simps split: option.split)

lemma map_filter_left_join:
  "f None = None \<Longrightarrow> List.map_filter f (left_join xs) = List.map_filter (\<lambda>x. f (Some x)) xs"
  by (cases xs) (simp_all add: left_join_def map_filter_map_comp List.map_filter_simps
        split: option.split)

lemma map_filter_if:
  "List.map_filter (\<lambda>x. if P x then Some (g x) else None) xs = map g (filter P xs)"
  by (induction xs) (simp_all add: List.map_filter_simps)

lemma sum_paid_quantity_left_join:
  "unique_keys s \<Longrightarrow>
   sum_list (List.map_filter (paid_quantity s) (left_join xs)) =
     (\<Sum>tp\<leftarrow>filter (in_paid_order s) xs. int (quantity tp))"
proof -
  assume u: "unique_keys s"
  have "List.map_filter (paid_quantity s) (left_join xs) =
        List.map_filter (\<lambda>tp. paid_quantity s (Some tp)) xs"
    by (rule map_filter_left_join) (simp add: paid_quantity_def)
  also have "\<dots> = map (\<lambda>tp. int (quantity tp)) (filter (in_paid_order s) xs)"
    using u by (simp add: paid_quantity_def order__is_paid_iff map_filter_if)
  finally show ?thesis by simp
qed

lemma units_sold_of_eq:
  "unique_keys s \<Longrightarrow> units_sold_of s tt = paid_quantity_of_ticket_type s tt"
  by (simp add: units_sold_of_def Coalesce_Sum_aggregate map_filter_map_comp
        sum_paid_quantity_left_join TicketType_purchases_def paid_quantity_of_ticket_type_def)

lemma paid_quantity_of_ticket_type_nonneg: "0 \<le> paid_quantity_of_ticket_type s tt"
  by (auto simp: paid_quantity_of_ticket_type_def intro!: sum_list_nonneg)

lemma get_event_valid:
  assumes "foreign_keys_valid s" and "tt \<in> set (ticket_types s)"
  shows "\<exists>e. get_event s (TicketType_event tt) = Some e"
proof -
  from assms have "TicketType_event tt \<in> Event_id ` set (events s)"
    by (simp add: foreign_keys_valid_def)
  then have "\<exists>e \<in> set (events s). Event_id e = TicketType_event tt"
    by auto
  then have "find (\<lambda>e. Event_id e = TicketType_event tt) (events s) \<noteq> None"
    by (auto simp: find_None_iff)
  then show ?thesis
    by (simp add: get_event_def)
qed

lemma annotate_all:
  "\<forall>tt \<in> set tts. \<exists>e. get_event s (TicketType_event tt) = Some e \<Longrightarrow>
   map annotated_ticket_type (List.map_filter (annotate_ticket_type s) tts) = tts"
  by (induction tts) (auto simp: List.map_filter_simps annotate_ticket_type_def)

lemma annotated_units_sold:
  "r \<in> set (List.map_filter (annotate_ticket_type s) tts) \<Longrightarrow>
   units_sold r = units_sold_of s (annotated_ticket_type r)"
  by (auto simp: List.map_filter_def annotate_ticket_type_def)

lemma sorted_wrt_order_by_desc:
  "sorted_wrt (\<lambda>a b. key b \<le> key a) (order_by_desc key rows)"
proof -
  have "sorted (map (\<lambda>r. - key r) (order_by_desc key rows))"
    unfolding order_by_desc_def by (rule sorted_sort_key)
  then show ?thesis by (simp add: sorted_map)
qed

lemma set_order_by_desc: "set (order_by_desc key rows) = set rows"
  by (simp add: order_by_desc_def)

lemma mset_order_by_desc: "mset (order_by_desc key rows) = mset rows"
  by (simp add: order_by_desc_def)

lemma foreign_keys_valid_sample_store: "foreign_keys_valid sample_store"
  by code_simp

text \<open>
  C3. For a limit that is not negative, \<open>get_top_selling_ticket_types\<close> returns the
  first \<open>limit\<close> rows of a ranking of all ticket types, so at most \<open>limit\<close> of them. The
  ranking holds every ticket type exactly once, also those without a sale; the
  \<open>units_sold\<close> of a row is the sum of \<open>quantity\<close> over the ticket type's purchases in
  paid orders (0 when there is none); and the ranking, hence the returned sequence, is
  non-increasing in \<open>units_sold\<close>.
\<close>

theorem top_selling_ticket_types_ranking:
  assumes "unique_keys s" and "foreign_keys_valid s" and "0 \<le> num_types"
  shows "\<exists>ranking result.
           get_top_selling_ticket_types num_types s = Inr result \<and>
           result = take (nat num_types) ranking \<and>
           int (length result) \<le> num_types \<and>
           mset (map annotated_ticket_type ranking) = mset (ticket_types s) \<and>
           (\<forall>r \<in> set ranking.
              units_sold r = paid_quantity_of_ticket_type s (annotated_ticket_type r) \<and>
              0 \<le> units_sold r) \<and>
           sorted_wrt (\<lambda>a b. units_sold b \<le> units_sold a) ranking \<and>
           sorted_wrt (\<lambda>a b. units_sold b \<le> units_sold a) result"
proof -
  define rows where "rows = List.map_filter (annotate_ticket_type s) (ticket_types s)"
  define ranking where "ranking = order_by_desc units_sold rows"
  have res: "get_top_selling_ticket_types num_types s = Inr (take (nat num_types) ranking)"
    using assms(3)
    by (simp add: get_top_selling_ticket_types_def slice_to_def ranking_def rows_def)
  have len: "int (length (take (nat num_types) ranking)) \<le> num_types"
    using assms(3) by simp
  have "map annotated_ticket_type rows = ticket_types s"
    unfolding rows_def using assms(2) by (intro annotate_all ballI get_event_valid)
  then have "mset (map annotated_ticket_type rows) = mset (ticket_types s)"
    by simp
  then have perm: "mset (map annotated_ticket_type ranking) = mset (ticket_types s)"
    by (simp add: ranking_def mset_order_by_desc)
  have units: "units_sold r = paid_quantity_of_ticket_type s (annotated_ticket_type r) \<and>
               0 \<le> units_sold r" if "r \<in> set ranking" for r
  proof -
    from that have "r \<in> set rows"
      by (simp add: ranking_def set_order_by_desc)
    then have "units_sold r = paid_quantity_of_ticket_type s (annotated_ticket_type r)"
      unfolding rows_def using assms(1) by (simp add: annotated_units_sold units_sold_of_eq)
    then show ?thesis
      by (simp add: paid_quantity_of_ticket_type_nonneg)
  qed
  have sorted: "sorted_wrt (\<lambda>a b. units_sold b \<le> units_sold a) ranking"
    unfolding ranking_def by (rule sorted_wrt_order_by_desc)
  then have "sorted_wrt (\<lambda>a b. units_sold b \<le> units_sold a) (take (nat num_types) ranking)"
    by (rule sorted_wrt_take)
  with res len perm units sorted show ?thesis
    by blast
qed

theorem top_selling_ticket_types_ranking_witness:
  "unique_keys sample_store \<and> foreign_keys_valid sample_store \<and> (0::int) \<le> 3 \<and>
   map_sum id (map (\<lambda>r. (TicketType_id (annotated_ticket_type r), units_sold r)))
     (get_top_selling_ticket_types 3 sample_store) = Inr [(1, 50), (3, 12), (2, 0)] \<and>
   (\<exists>ranking result.
      get_top_selling_ticket_types 3 sample_store = Inr result \<and>
      result = take (nat 3) ranking \<and>
      int (length result) \<le> 3 \<and>
      mset (map annotated_ticket_type ranking) = mset (ticket_types sample_store) \<and>
      (\<forall>r \<in> set ranking.
         units_sold r = paid_quantity_of_ticket_type sample_store (annotated_ticket_type r) \<and>
         0 \<le> units_sold r) \<and>
      sorted_wrt (\<lambda>a b. units_sold b \<le> units_sold a) ranking \<and>
      sorted_wrt (\<lambda>a b. units_sold b \<le> units_sold a) result)"
proof -
  have computed:
    "map_sum id (map (\<lambda>r. (TicketType_id (annotated_ticket_type r), units_sold r)))
       (get_top_selling_ticket_types 3 sample_store) = Inr [(1, 50), (3, 12), (2, 0)]"
    by code_simp
  have limit: "(0::int) \<le> 3" by simp
  show ?thesis
    using top_selling_ticket_types_ranking
            [OF unique_keys_sample_store foreign_keys_valid_sample_store limit]
      unique_keys_sample_store foreign_keys_valid_sample_store computed
    by simp
qed

section \<open>Customer purchase statistics\<close>

lemma map_filter_Some: "List.map_filter (\<lambda>x. Some (g x)) xs = map g xs"
  by (induction xs) (simp_all add: List.map_filter_simps)

lemma find_Some_member: "find P xs = Some x \<Longrightarrow> x \<in> set xs \<and> P x"
  by (induction xs) (auto split: if_splits)

lemma total_orders_placed_of_eq:
  "total_orders_placed_of s u =
     card (Order_id ` {ord \<in> set (orders s). Order_customer ord = Some (User_id u)})"
proof -
  have "List.map_filter (\<lambda>v. v) (map (map_option Order_id) (left_join (User_orders s u))) =
        map Order_id (User_orders s u)"
    by (simp add: map_filter_map_comp map_filter_left_join map_filter_Some)
  then have "total_orders_placed_of s u = card (set (map Order_id (User_orders s u)))"
    by (simp add: total_orders_placed_of_def Count_distinct_def length_remdups_card_conv)
  also have "set (map Order_id (User_orders s u)) =
      Order_id ` {ord \<in> set (orders s). Order_customer ord = Some (User_id u)}"
    by (simp add: User_orders_def)
  finally show ?thesis .
qed

lemma total_orders_placed_of_unique:
  assumes "unique_keys s"
  shows "total_orders_placed_of s u =
     length (filter (\<lambda>ord. Order_customer ord = Some (User_id u)) (orders s))"
proof -
  have "List.map_filter (\<lambda>v. v) (map (map_option Order_id) (left_join (User_orders s u))) =
        map Order_id (User_orders s u)"
    by (simp add: map_filter_map_comp map_filter_left_join map_filter_Some)
  moreover have "distinct (map Order_id (User_orders s u))"
    using assms by (simp add: unique_keys_def User_orders_def distinct_map_filter)
  ultimately show ?thesis
    by (simp add: total_orders_placed_of_def Count_distinct_def distinct_remdups_id
          User_orders_def)
qed

lemma total_amount_spent_of_eq:
  "total_amount_spent_of s u =
     (\<Sum>ord\<leftarrow>filter (\<lambda>ord. Order_customer ord = Some (User_id u) \<and> is_paid ord) (orders s).
        total_amount ord)"
proof -
  have "List.map_filter paid_amount (left_join (User_orders s u)) =
        List.map_filter (\<lambda>ord. paid_amount (Some ord)) (User_orders s u)"
    by (rule map_filter_left_join) (simp add: paid_amount_def)
  also have "\<dots> = map total_amount (filter is_paid (User_orders s u))"
    by (simp add: paid_amount_def map_filter_if)
  finally show ?thesis
    by (simp add: total_amount_spent_of_def Coalesce_Sum_aggregate map_filter_map_comp
          User_orders_def)
qed

lemma existing_user_first:
  assumes "\<exists>u \<in> set (users s). User_id u = customer_id"
  obtains u rest where "filter (\<lambda>u. User_id u = customer_id) (users s) = u # rest"
    and "User_id u = customer_id"
proof -
  from assms have "filter (\<lambda>u. User_id u = customer_id) (users s) \<noteq> []"
    by (auto simp: filter_empty_conv)
  then obtain u rest where eq: "filter (\<lambda>u. User_id u = customer_id) (users s) = u # rest"
    by (cases "filter (\<lambda>u. User_id u = customer_id) (users s)") auto
  then have "u \<in> set (filter (\<lambda>u. User_id u = customer_id) (users s))"
    by simp
  then have "User_id u = customer_id"
    by simp
  with eq show ?thesis
    by (rule that)
qed

text \<open>
  C5. For a customer that exists, \<open>total_orders_placed\<close> is the number of distinct
  orders of that customer, paid or not, and \<open>total_amount_spent\<close> is the sum of
  \<open>total_amount\<close> over the customer's paid orders only (0 when there is none).
\<close>

theorem customer_orders_and_amount:
  assumes "\<exists>u \<in> set (users s). User_id u = customer_id"
  shows "\<exists>st. get_customer_purchase_statistics customer_id s = Some st \<and>
           User_id (annotated_user st) = customer_id \<and>
           total_orders_placed st =
             card (Order_id ` {ord \<in> set (orders s). Order_customer ord = Some customer_id}) \<and>
           (unique_keys s \<longrightarrow>
              total_orders_placed st =
                length (filter (\<lambda>ord. Order_customer ord = Some customer_id) (orders s))) \<and>
           total_amount_spent st =
             (\<Sum>ord\<leftarrow>filter (\<lambda>ord. Order_customer ord = Some customer_id \<and> is_paid ord)
                            (orders s).
                total_amount ord)"
proof -
  from assms obtain u rest
    where first: "filter (\<lambda>u. User_id u = customer_id) (users s) = u # rest"
      and u: "User_id u = customer_id"
    by (rule existing_user_first)
  have placed: "total_orders_placed_of s u =
      card (Order_id ` {ord \<in> set (orders s). Order_customer ord = Some customer_id})"
    using u by (simp add: total_orders_placed_of_eq)
  have rows: "unique_keys s \<longrightarrow> total_orders_placed_of s u =
      length (filter (\<lambda>ord. Order_customer ord = Some customer_id) (orders s))"
    using u by (simp add: total_orders_placed_of_unique)
  have spent: "total_amount_spent_of s u =
      (\<Sum>ord\<leftarrow>filter (\<lambda>ord. Order_customer ord = Some customer_id \<and> is_paid ord) (orders s).
         total_amount ord)"
    using u by (simp add: total_amount_spent_of_eq)
  show ?thesis
    using u placed rows spent
    by (simp add: get_customer_purchase_statistics_def first)
qed

theorem customer_orders_and_amount_witness:
  "map_option (\<lambda>st. (total_orders_placed st, total_amount_spent st))
     (get_customer_purchase_statistics 1 sample_store) = Some (2, 75) \<and>
   (\<exists>st. get_customer_purchase_statistics 1 sample_store = Some st \<and>
      User_id (annotated_user st) = 1 \<and>
      total_orders_placed st =
        card (Order_id ` {ord \<in> set (orders sample_store). Order_customer ord = Some 1}) \<and>
      total_orders_placed st =
        length (filter (\<lambda>ord. Order_customer ord = Some 1) (orders sample_store)) \<and>
      total_amount_spent st =
        (\<Sum>ord\<leftarrow>filter (\<lambda>ord. Order_customer ord = Some 1 \<and> is_paid ord)
                       (orders sample_store).
           total_amount ord))"
proof -
  have exists: "\<exists>u \<in> set (users sample_store). User_id u = 1"
    by code_simp
  have computed: "map_option (\<lambda>st. (total_orders_placed st, total_amount_spent st))
     (get_customer_purchase_statistics 1 sample_store) = Some (2, 75)"
    by code_simp
  show ?thesis
    using customer_orders_and_amount [OF exists] unique_keys_sample_store computed
    by blast
qed

lemma order__customer_id_member:
  "order__customer_id s tp = Some customer_id \<Longrightarrow>
   \<exists>ord \<in> set (orders s). Order_customer ord = Some customer_id"
  by (auto simp: order__customer_id_def get_order_def Option.bind_eq_Some_conv
        dest: find_Some_member)

lemma no_orders_no_paid_purchases:
  "\<forall>ord \<in> set (orders s). Order_customer ord \<noteq> Some customer_id \<Longrightarrow>
   customer_paid_purchases s customer_id = []"
  by (auto simp: customer_paid_purchases_def filter_empty_conv dest: order__customer_id_member)

lemma event_counts_empty:
  "customer_paid_purchases s customer_id = [] \<Longrightarrow> event_counts s customer_id = []"
  by (simp add: event_counts_def named_quantities_def List.map_filter_simps order_by_desc_def)

text \<open>
  C7. \<open>get_customer_purchase_statistics\<close> returns nothing, and no error, when no user
  has the given id. For a user without any order it returns the user with
  \<open>total_orders_placed = 0\<close>, \<open>total_amount_spent = 0\<close> and no
  \<open>most_purchased_event_name\<close>.
\<close>

theorem customer_statistics_missing_or_empty:
  "((\<forall>u \<in> set (users s). User_id u \<noteq> customer_id) \<longrightarrow>
      get_customer_purchase_statistics customer_id s = None) \<and>
   ((\<exists>u \<in> set (users s). User_id u = customer_id) \<and>
    (\<forall>ord \<in> set (orders s). Order_customer ord \<noteq> Some customer_id) \<longrightarrow>
      (\<exists>st. get_customer_purchase_statistics customer_id s = Some st \<and>
         User_id (annotated_user st) = customer_id \<and>
         total_orders_placed st = 0 \<and> total_amount_spent st = 0 \<and>
         most_purchased_event_name st = None))"
proof (intro conjI impI)
  assume "\<forall>u \<in> set (users s). User_id u \<noteq> customer_id"
  then have "filter (\<lambda>u. User_id u = customer_id) (users s) = []"
    by (simp add: filter_empty_conv)
  then show "get_customer_purchase_statistics customer_id s = None"
    by (simp add: get_customer_purchase_statistics_def)
next
  assume a: "(\<exists>u \<in> set (users s). User_id u = customer_id) \<and>
    (\<forall>ord \<in> set (orders s). Order_customer ord \<noteq> Some customer_id)"
  then have "\<exists>u \<in> set (users s). User_id u = customer_id"
    by simp
  then obtain u rest
    where first: "filter (\<lambda>u. User_id u = customer_id) (users s) = u # rest"
      and u: "User_id u = customer_id"
    by (rule existing_user_first)
  from a have none: "filter (\<lambda>ord. Order_customer ord = Some (User_id u)) (orders s) = []"
    using u by (simp add: filter_empty_conv)
  have placed: "total_orders_placed_of s u = 0"
    by (simp add: total_orders_placed_of_def User_orders_def none left_join_def
          Count_distinct_def List.map_filter_simps)
  have spent: "total_amount_spent_of s u = 0"
    by (simp add: total_amount_spent_of_def User_orders_def none left_join_def paid_amount_def
          Sum_aggregate_def Coalesce_def List.map_filter_simps)
  from a have "event_counts s customer_id = []"
    by (simp add: no_orders_no_paid_purchases event_counts_empty)
  then show "\<exists>st. get_customer_purchase_statistics customer_id s = Some st \<and>
         User_id (annotated_user st) = customer_id \<and>
         total_orders_placed st = 0 \<and> total_amount_spent st = 0 \<and>
         most_purchased_event_name st = None"
    using u placed spent by (simp add: get_customer_purchase_statistics_def first)
qed

theorem customer_statistics_missing_or_empty_witness:
  "get_customer_purchase_statistics 7 sample_store = None \<and>
   (\<exists>st. get_customer_purchase_statistics 2 sample_store = Some st \<and>
      User_id (annotated_user st) = 2 \<and>
      total_orders_placed st = 0 \<and> total_amount_spent st = 0 \<and>
      most_purchased_event_name st = None)"
proof -
  have missing: "\<forall>u \<in> set (users sample_store). User_id u \<noteq> 7"
    by code_simp
  have present: "\<exists>u \<in> set (users sample_store). User_id u = 2"
    by code_simp
  have no_order: "\<forall>ord \<in> set (orders sample_store). Order_customer ord \<noteq> Some 2"
    by code_simp
  show ?thesis
    using customer_statistics_missing_or_empty [where s = sample_store and customer_id = 7]
      customer_statistics_missing_or_empty [where s = sample_store and customer_id = 2]
      missing present no_order
    by blast
qed

lemma sum_list_filter_disjoint:
  fixes q :: "'a \<Rightarrow> int"
  shows "\<forall>x \<in> set xs. \<not> (A x \<and> B x) \<Longrightarrow>
    (\<Sum>x\<leftarrow>filter (\<lambda>x. A x \<or> B x) xs. q x) =
      (\<Sum>x\<leftarrow>filter A xs. q x) + (\<Sum>x\<leftarrow>filter B xs. q x)"
  by (induction xs) auto

lemma sum_list_regroup:
  fixes q :: "'a \<Rightarrow> int"
  assumes "distinct gs"
    and "\<And>g h x. g \<in> set gs \<Longrightarrow> h \<in> set gs \<Longrightarrow> x \<in> set xs \<Longrightarrow> B g x \<Longrightarrow> B h x \<Longrightarrow> g = h"
  shows "(\<Sum>g\<leftarrow>gs. \<Sum>x\<leftarrow>filter (B g) xs. q x) =
         (\<Sum>x\<leftarrow>filter (\<lambda>x. \<exists>g \<in> set gs. B g x) xs. q x)"
  using assms
proof (induction gs)
  case Nil
  then show ?case by simp
next
  case (Cons g gs)
  have disjoint: "\<forall>x \<in> set xs. \<not> (B g x \<and> (\<exists>h \<in> set gs. B h x))"
  proof (intro ballI notI)
    fix x assume "x \<in> set xs" and "B g x \<and> (\<exists>h \<in> set gs. B h x)"
    then obtain h where "h \<in> set gs" and "B h x" and "B g x"
      by blast
    with \<open>x \<in> set xs\<close> have "g = h"
      using Cons.prems(2) [of g h x] by simp
    with \<open>h \<in> set gs\<close> Cons.prems(1) show False
      by simp
  qed
  have ih: "(\<Sum>g\<leftarrow>gs. \<Sum>x\<leftarrow>filter (B g) xs. q x) =
         (\<Sum>x\<leftarrow>filter (\<lambda>x. \<exists>g \<in> set gs. B g x) xs. q x)"
    using Cons.prems by (intro Cons.IH) auto
  have "(\<Sum>x\<leftarrow>filter (\<lambda>x. \<exists>h \<in> set (g # gs). B h x) xs. q x) =
        (\<Sum>x\<leftarrow>filter (\<lambda>x. B g x \<or> (\<exists>h \<in> set gs. B h x)) xs. q x)"
    by simp
  also have "\<dots> = (\<Sum>x\<leftarrow>filter (B g) xs. q x) +
                   (\<Sum>x\<leftarrow>filter (\<lambda>x. \<exists>h \<in> set gs. B h x) xs. q x)"
    using disjoint by (rule sum_list_filter_disjoint)
  finally show ?case
    using ih by simp
qed

lemma filter_by_key_single:
  "distinct (map f xs) \<Longrightarrow> x \<in> set xs \<Longrightarrow> filter (\<lambda>y. f y = f x) xs = [x]"
  by (induction xs) (auto simp: image_iff filter_empty_conv)

lemma group_total_map_filter:
  "group_total (List.map_filter (\<lambda>x. map_option (\<lambda>name. (name, q x)) (nm x)) xs) n =
     (\<Sum>x\<leftarrow>filter (\<lambda>x. nm x = Some n) xs. q x)"
  by (induction xs) (auto simp: group_total_def List.map_filter_simps split: option.split)

lemma customer_paid_purchases_eq:
  assumes "unique_keys s"
  shows "customer_paid_purchases s customer_id =
     filter (in_paid_order_of s customer_id) (ticket_purchases s)"
proof -
  have ord: "get_order s k = Some ord \<longleftrightarrow> ord \<in> set (orders s) \<and> Order_id ord = k" for k ord
    using assms by (simp add: get_order_def unique_keys_def find_by_key)
  have "(order__customer_id s tp = Some customer_id \<and> order__is_paid s tp = Some True) =
        in_paid_order_of s customer_id tp" for tp
  proof (cases "get_order s (TicketPurchase_order tp)")
    case None
    then have "\<not> in_paid_order_of s customer_id tp"
      using ord [of "TicketPurchase_order tp"] by (auto simp: in_paid_order_of_def)
    with None show ?thesis
      by (simp add: order__customer_id_def order__is_paid_def)
  next
    case (Some found)
    then have found: "found \<in> set (orders s)" "Order_id found = TicketPurchase_order tp"
      using ord [of "TicketPurchase_order tp" found] by simp_all
    have only: "ord' = found"
      if "ord' \<in> set (orders s)" and "Order_id ord' = TicketPurchase_order tp" for ord'
      using that ord [of "TicketPurchase_order tp" ord'] Some by simp
    have "in_paid_order_of s customer_id tp \<longleftrightarrow>
        Order_customer found = Some customer_id \<and> is_paid found"
    proof
      assume "in_paid_order_of s customer_id tp"
      then obtain ord' where "ord' \<in> set (orders s)"
        and "Order_id ord' = TicketPurchase_order tp"
        and "Order_customer ord' = Some customer_id \<and> is_paid ord'"
        unfolding in_paid_order_of_def by blast
      then show "Order_customer found = Some customer_id \<and> is_paid found"
        using only by blast
    next
      assume "Order_customer found = Some customer_id \<and> is_paid found"
      with found show "in_paid_order_of s customer_id tp"
        unfolding in_paid_order_of_def by blast
    qed
    with Some show ?thesis
      by (simp add: order__customer_id_def order__is_paid_def)
  qed
  then show ?thesis
    by (simp add: customer_paid_purchases_def)
qed

lemma ticket_type__event__name_iff:
  assumes "unique_keys s"
  shows "ticket_type__event__name s tp = Some n \<longleftrightarrow>
         (\<exists>e \<in> set (events s). Event_name e = n \<and> belongs_to_event s e tp)"
proof -
  have ev: "get_event s k = Some e \<longleftrightarrow> e \<in> set (events s) \<and> Event_id e = k" for k e
    using assms by (simp add: get_event_def unique_keys_def find_by_key)
  have "ticket_type__event__name s tp = Some n \<longleftrightarrow>
        (\<exists>e. ticket_type__event s tp = Some (Event_id e) \<and> e \<in> set (events s) \<and>
             Event_name e = n)"
    by (auto simp: ticket_type__event__name_def Option.bind_eq_Some_conv ev)
  then show ?thesis
    using assms by (auto simp: ticket_type__event_iff)
qed

lemma belongs_to_one_event:
  assumes "unique_keys s" and "e \<in> set (events s)" and "e' \<in> set (events s)"
    and "belongs_to_event s e tp" and "belongs_to_event s e' tp"
  shows "e = e'"
proof -
  from assms(1,4,5) have "Some (Event_id e) = Some (Event_id e')"
    by (metis ticket_type__event_iff)
  then have "Event_id e = Event_id e'"
    by simp
  with assms(1,2,3) show ?thesis
    by (auto simp: unique_keys_def distinct_map inj_on_def)
qed

lemma group_total_named_quantities:
  assumes "unique_keys s"
  shows "group_total (named_quantities s customer_id) n =
         customer_quantity_of_name s customer_id n"
proof -
  let ?ps = "ticket_purchases s"
  let ?es = "filter (\<lambda>e. Event_name e = n) (events s)"
  let ?B = "\<lambda>e tp. belongs_to_event s e tp \<and> in_paid_order_of s customer_id tp"
  have "group_total (named_quantities s customer_id) n =
        (\<Sum>tp\<leftarrow>filter (\<lambda>tp. ticket_type__event__name s tp = Some n)
                      (customer_paid_purchases s customer_id). int (quantity tp))"
    unfolding named_quantities_def by (rule group_total_map_filter)
  also have "\<dots> = (\<Sum>tp\<leftarrow>filter (\<lambda>tp. \<exists>e \<in> set ?es. ?B e tp) ?ps. int (quantity tp))"
    using assms
    by (auto simp: customer_paid_purchases_eq ticket_type__event__name_iff
          intro!: arg_cong [where f = sum_list] arg_cong [where f = "map _"] filter_cong)
  also have "\<dots> = (\<Sum>e\<leftarrow>?es. \<Sum>tp\<leftarrow>filter (?B e) ?ps. int (quantity tp))"
  proof (rule sum_list_regroup [symmetric])
    show "distinct ?es"
      using assms by (auto simp: unique_keys_def dest: distinct_map [THEN iffD1])
  next
    fix g h x
    assume "g \<in> set ?es" "h \<in> set ?es" "?B g x" "?B h x"
    then show "g = h"
      using assms by (auto intro: belongs_to_one_event)
  qed
  finally show ?thesis
    by (simp add: customer_quantity_of_name_def customer_quantity_of_event_def)
qed

lemma order_by_desc_head:
  assumes "order_by_desc key rows = r # rest"
  shows "r \<in> set rows \<and> (\<forall>x \<in> set rows. key x \<le> key r)"
proof -
  have "sorted_wrt (\<lambda>a b. key b \<le> key a) (r # rest)"
    using sorted_wrt_order_by_desc [of key rows] assms by simp
  then have "\<forall>x \<in> set (r # rest). key x \<le> key r"
    by auto
  moreover have "set (r # rest) = set rows"
    using set_order_by_desc [of key rows] assms by simp
  ultimately show ?thesis
    by auto
qed

lemma group_total_nonneg:
  "\<forall>row \<in> set rows. 0 \<le> snd row \<Longrightarrow> 0 \<le> group_total rows n"
  by (auto simp: group_total_def intro!: sum_list_nonneg)

lemma group_total_absent: "n \<notin> fst ` set rows \<Longrightarrow> group_total rows n = 0"
proof -
  assume "n \<notin> fst ` set rows"
  then have "filter (\<lambda>row. fst row = n) rows = []"
    by (auto simp: filter_empty_conv)
  then show ?thesis
    by (simp add: group_total_def)
qed

lemma named_quantities_nonneg: "\<forall>row \<in> set (named_quantities s customer_id). 0 \<le> snd row"
  by (auto simp: named_quantities_def List.map_filter_def)

lemma event_counts_head:
  assumes "event_counts s customer_id = row # rest"
  shows "fst row \<in> fst ` set (named_quantities s customer_id) \<and>
         (\<forall>m. group_total (named_quantities s customer_id) m
                \<le> group_total (named_quantities s customer_id) (fst row))"
proof -
  let ?rows = "named_quantities s customer_id"
  let ?groups = "map (\<lambda>name. (name, group_total ?rows name)) (remdups (map fst ?rows))"
  from assms have "order_by_desc snd ?groups = row # rest"
    by (simp add: event_counts_def Let_def)
  then have head: "row \<in> set ?groups" and top: "\<forall>x \<in> set ?groups. snd x \<le> snd row"
    using order_by_desc_head [of snd ?groups row rest] by blast+
  from head have name: "fst row \<in> fst ` set ?rows"
    and total: "snd row = group_total ?rows (fst row)"
    by force+
  have "group_total ?rows m \<le> group_total ?rows (fst row)" for m
  proof (cases "m \<in> fst ` set ?rows")
    case True
    then have "(m, group_total ?rows m) \<in> set ?groups"
      by auto
    with top total show ?thesis
      by fastforce
  next
    case False
    then have "group_total ?rows m = 0"
      by (rule group_total_absent)
    moreover have "0 \<le> group_total ?rows (fst row)"
      by (rule group_total_nonneg) (rule named_quantities_nonneg)
    ultimately show ?thesis
      by simp
  qed
  with name show ?thesis
    by blast
qed

lemma named_quantities_name:
  assumes "unique_keys s" and "n \<in> fst ` set (named_quantities s customer_id)"
  shows "\<exists>e \<in> set (events s). Event_name e = n"
proof -
  from assms(2) obtain tp where "ticket_type__event__name s tp = Some n"
    by (auto simp: named_quantities_def List.map_filter_def)
  with assms(1) show ?thesis
    by (auto simp: ticket_type__event__name_iff)
qed

lemma customer_quantity_of_unique_name:
  assumes "distinct (map Event_name (events s))" and "e \<in> set (events s)"
  shows "customer_quantity_of_name s customer_id (Event_name e) =
         customer_quantity_of_event s customer_id e"
  using filter_by_key_single [OF assms]
  by (simp add: customer_quantity_of_name_def)

lemma statistics_most_purchased:
  assumes "get_customer_purchase_statistics customer_id s = Some st"
  shows "most_purchased_event_name st =
           (case event_counts s customer_id of [] \<Rightarrow> None | row # _ \<Rightarrow> Some (fst row))"
  using assms
  by (auto simp: get_customer_purchase_statistics_def Let_def split: list.splits)

text \<open>
  What the grouping by \<open>ticket_type__event__name\<close> computes. The statistics of an
  existing customer name the event \<^emph>\<open>name\<close> under which the customer bought most in
  paid orders: the quantities of all events that bear one name are added, the returned
  name is the name of some event and no name has a larger total. Where the events have
  pairwise distinct names this is the name of an event with the maximal total. A
  customer without a purchase in a paid order gets no name.
\<close>

theorem most_purchased_event_name_by_name:
  assumes "unique_keys s"
    and "get_customer_purchase_statistics customer_id s = Some st"
  shows "(\<forall>name. most_purchased_event_name st = Some name \<longrightarrow>
            (\<exists>e \<in> set (events s). Event_name e = name) \<and>
            (\<forall>other. customer_quantity_of_name s customer_id other
                       \<le> customer_quantity_of_name s customer_id name) \<and>
            (distinct (map Event_name (events s)) \<longrightarrow>
               (\<exists>e \<in> set (events s). Event_name e = name \<and>
                  (\<forall>e' \<in> set (events s). customer_quantity_of_event s customer_id e'
                                        \<le> customer_quantity_of_event s customer_id e)))) \<and>
         ((\<forall>tp \<in> set (ticket_purchases s). \<not> in_paid_order_of s customer_id tp) \<longrightarrow>
            most_purchased_event_name st = None)"
proof (intro conjI allI impI)
  fix name
  assume some: "most_purchased_event_name st = Some name"
  then obtain row rest where counts: "event_counts s customer_id = row # rest"
    and name: "fst row = name"
    using statistics_most_purchased [OF assms(2)] by (auto split: list.splits)
  from event_counts_head [OF counts] name
  have member: "name \<in> fst ` set (named_quantities s customer_id)"
    and top: "\<And>m. group_total (named_quantities s customer_id) m
                \<le> group_total (named_quantities s customer_id) name"
    by auto
  show event: "\<exists>e \<in> set (events s). Event_name e = name"
    using assms(1) member by (rule named_quantities_name)
  show largest: "customer_quantity_of_name s customer_id other
                   \<le> customer_quantity_of_name s customer_id name" for other
    using top [of other] assms(1) by (simp add: group_total_named_quantities)
  show "\<exists>e \<in> set (events s). Event_name e = name \<and>
          (\<forall>e' \<in> set (events s). customer_quantity_of_event s customer_id e'
                                \<le> customer_quantity_of_event s customer_id e)"
    if names: "distinct (map Event_name (events s))"
  proof -
    from event obtain e where e: "e \<in> set (events s)" "Event_name e = name"
      by blast
    have "customer_quantity_of_event s customer_id e'
            \<le> customer_quantity_of_event s customer_id e" if "e' \<in> set (events s)" for e'
      using largest [of "Event_name e'"] e
        customer_quantity_of_unique_name [OF names that, of customer_id]
        customer_quantity_of_unique_name [OF names e(1), of customer_id]
      by simp
    with e show ?thesis
      by blast
  qed
next
  assume none: "\<forall>tp \<in> set (ticket_purchases s). \<not> in_paid_order_of s customer_id tp"
  then have "customer_paid_purchases s customer_id = []"
    using assms(1) by (simp add: customer_paid_purchases_eq filter_empty_conv)
  then have "event_counts s customer_id = []"
    by (rule event_counts_empty)
  then show "most_purchased_event_name st = None"
    using statistics_most_purchased [OF assms(2)] by simp
qed

theorem most_purchased_event_name_by_name_witness:
  "map_option most_purchased_event_name (get_customer_purchase_statistics 1 sample_store)
     = Some (Some ''E'') \<and>
   map (customer_quantity_of_event sample_store 1) (events sample_store) = [30, 0, 0, 0, 0] \<and>
   (\<exists>e \<in> set (events sample_store). Event_name e = ''E'' \<and>
      (\<forall>e' \<in> set (events sample_store). customer_quantity_of_event sample_store 1 e'
                                         \<le> customer_quantity_of_event sample_store 1 e)) \<and>
   map_option most_purchased_event_name (get_customer_purchase_statistics 2 sample_store)
     = Some None"
proof -
  have first: "map_option most_purchased_event_name
                 (get_customer_purchase_statistics 1 sample_store) = Some (Some ''E'')"
    by code_simp
  then obtain carol where carol: "get_customer_purchase_statistics 1 sample_store = Some carol"
    and most: "most_purchased_event_name carol = Some ''E''"
    by (cases "get_customer_purchase_statistics 1 sample_store") auto
  have "map_option User_id (map_option annotated_user
          (get_customer_purchase_statistics 2 sample_store)) = Some 2"
    by code_simp
  then obtain dave where dave: "get_customer_purchase_statistics 2 sample_store = Some dave"
    by (cases "get_customer_purchase_statistics 2 sample_store") auto
  have names: "distinct (map Event_name (events sample_store))"
    by code_simp
  have unpaid: "\<forall>tp \<in> set (ticket_purchases sample_store). \<not> in_paid_order_of sample_store 2 tp"
    by code_simp
  have quantities:
    "map (customer_quantity_of_event sample_store 1) (events sample_store) = [30, 0, 0, 0, 0]"
    by code_simp
  show ?thesis
    using most_purchased_event_name_by_name [OF unique_keys_sample_store carol]
      most_purchased_event_name_by_name [OF unique_keys_sample_store dave]
      carol most dave names unpaid quantities
    by simp
qed

lemma same_name_store_well_formed:
  "unique_keys same_name_store \<and> foreign_keys_valid same_name_store"
  by code_simp

text \<open>
  C6. The most purchased event of the comment and the docstring is an event; the query
  groups by the event's name. Where two events share a name the two differ: Carol
  bought 3 tickets of each of the two events named Gala and 5 of Expo, so the event
  with the maximal total is Expo, and the function answers Gala, a name that only
  events with a total of 3 bear.
\<close>

theorem most_purchased_event_name_merges_same_names:
  "map_option most_purchased_event_name (get_customer_purchase_statistics 1 same_name_store)
     = Some (Some ''Gala'') \<and>
   map Event_name (events same_name_store) = [''Gala'', ''Gala'', ''Expo''] \<and>
   map (customer_quantity_of_event same_name_store 1) (events same_name_store) = [3, 3, 5]"
  by code_simp

section \<open>Events with low capacity remaining\<close>

lemma map_filter_concat:
  "List.map_filter f (concat xss) = concat (map (List.map_filter f) xss)"
  by (induction xss) (simp_all add: List.map_filter_def)

lemma sum_list_of_concat:
  fixes xss :: "int list list"
  shows "sum_list (concat xss) = (\<Sum>xs\<leftarrow>xss. sum_list xs)"
  by (induction xss) simp_all

lemma sum_list_left_join:
  fixes g :: "'a option \<Rightarrow> int"
  shows "g None = 0 \<Longrightarrow> (\<Sum>j\<leftarrow>left_join xs. g j) = (\<Sum>x\<leftarrow>xs. g (Some x))"
  by (cases xs) (simp_all add: left_join_def comp_def)

lemma key_unique:
  "distinct (map f xs) \<Longrightarrow> x \<in> set xs \<Longrightarrow> y \<in> set xs \<Longrightarrow> f x = f y \<Longrightarrow> x = y"
  by (auto simp: distinct_map inj_on_def)

lemma tickets_sold_of_eq:
  assumes "unique_keys s"
  shows "tickets_sold_of s e = paid_quantity_of_event s e"
proof -
  let ?ps = "ticket_purchases s"
  let ?tts = "Event_ticket_types s e"
  let ?B = "\<lambda>tt tp. TicketPurchase_ticket_type tp = TicketType_id tt \<and> in_paid_order s tp"
  let ?g = "\<lambda>joined. sum_list (List.map_filter (paid_quantity s)
               (case joined of None \<Rightarrow> [None]
                | Some tt \<Rightarrow> left_join (TicketType_purchases s tt)))"
  have none: "?g None = 0"
    by (simp add: List.map_filter_simps paid_quantity_def)
  have some: "?g (Some tt) = (\<Sum>tp\<leftarrow>filter (?B tt) ?ps. int (quantity tp))" for tt
    using assms by (simp add: sum_paid_quantity_left_join TicketType_purchases_def)
  have ids: "distinct (map TicketType_id (ticket_types s))"
    using assms by (simp add: unique_keys_def)
  have "tickets_sold_of s e = (\<Sum>joined\<leftarrow>left_join ?tts. ?g joined)"
    by (simp add: tickets_sold_of_def Coalesce_Sum_aggregate map_filter_map_comp
          Event_purchase_rows_def map_filter_concat sum_list_of_concat comp_def)
  also have "\<dots> = (\<Sum>tt\<leftarrow>?tts. ?g (Some tt))"
    using none by (rule sum_list_left_join)
  also have "\<dots> = (\<Sum>tt\<leftarrow>?tts. \<Sum>tp\<leftarrow>filter (?B tt) ?ps. int (quantity tp))"
    by (simp only: some)
  also have "\<dots> = (\<Sum>tp\<leftarrow>filter (\<lambda>tp. \<exists>tt \<in> set ?tts. ?B tt tp) ?ps. int (quantity tp))"
  proof (rule sum_list_regroup)
    show "distinct ?tts"
      using ids by (auto simp: Event_ticket_types_def dest: distinct_map [THEN iffD1])
  next
    fix g h x
    assume "g \<in> set ?tts" "h \<in> set ?tts" "?B g x" "?B h x"
    then show "g = h"
      using ids by (auto simp: Event_ticket_types_def intro: key_unique)
  qed
  also have "(\<lambda>tp. \<exists>tt \<in> set ?tts. ?B tt tp) =
             (\<lambda>tp. belongs_to_event s e tp \<and> in_paid_order s tp)"
    by (rule ext) (auto simp: Event_ticket_types_def belongs_to_event_def)
  finally show ?thesis
    by (simp add: paid_quantity_of_event_def)
qed

lemma sql_divide_positive:
  "0 < c \<Longrightarrow> sql_divide a (int c) = Inr (a sdiv int c)"
  by (simp add: sql_divide_def)

lemma annotate_event_positive:
  "0 < c \<Longrightarrow>
   annotate_event s e c =
     Inr \<lparr> annotated_event = e, tickets_sold = tickets_sold_of s e,
           percentage_tickets_remaining = (100 * (int c - tickets_sold_of s e)) sdiv int c \<rparr>"
  by (simp add: annotate_event_def sql_divide_positive)

lemma annotate_event_zero: "annotate_event s e 0 = Inl DivisionByZero"
  by (simp add: annotate_event_def sql_divide_def)

lemma annotate_event_error: "annotate_event s e c = Inl err \<Longrightarrow> err = DivisionByZero"
  by (cases "c = 0") (simp_all add: annotate_event_zero annotate_event_positive)

lemma all_rows_positive:
  "\<forall>e \<in> set es. capacity e \<noteq> Some 0 \<Longrightarrow>
   all_rows (List.map_filter (\<lambda>e. map_option (annotate_event s e) (capacity e)) es) =
     Inr (map (\<lambda>e. \<lparr> annotated_event = e, tickets_sold = tickets_sold_of s e,
                     percentage_tickets_remaining =
                       (100 * (int (the (capacity e)) - tickets_sold_of s e))
                         sdiv int (the (capacity e)) \<rparr>)
              (filter (\<lambda>e. capacity e \<noteq> None) es))"
proof (induction es)
  case Nil
  then show ?case by (simp add: List.map_filter_simps)
next
  case (Cons e es)
  show ?case
  proof (cases "capacity e")
    case None
    with Cons show ?thesis by (simp add: List.map_filter_simps)
  next
    case (Some c)
    with Cons.prems have "0 < c" by auto
    with Some Cons show ?thesis
      by (simp add: List.map_filter_simps annotate_event_positive)
  qed
qed

lemma all_rows_zero:
  "e \<in> set es \<Longrightarrow> capacity e = Some 0 \<Longrightarrow>
   all_rows (List.map_filter (\<lambda>e. map_option (annotate_event s e) (capacity e)) es) =
     Inl DivisionByZero"
proof (induction es)
  case Nil
  then show ?case by simp
next
  case (Cons x es)
  show ?case
  proof (cases "capacity x")
    case None
    with Cons show ?thesis by (auto simp: List.map_filter_simps)
  next
    case (Some c)
    show ?thesis
    proof (cases "annotate_event s x c")
      case (Inl err)
      then have "err = DivisionByZero" by (rule annotate_event_error)
      with Inl Some show ?thesis by (simp add: List.map_filter_simps)
    next
      case (Inr row)
      then have "c \<noteq> 0" by (cases "c = 0") (simp_all add: annotate_event_zero)
      with Cons.prems Some have "e \<in> set es" by auto
      with Cons Inr Some show ?thesis by (simp add: List.map_filter_simps)
    qed
  qed
qed

lemma low_capacity_rows:
  assumes "\<forall>e \<in> set (events s). capacity e \<noteq> Some 0"
  shows "get_events_with_low_capacity_remaining threshold s =
     Inr (filter (\<lambda>r. percentage_tickets_remaining r \<le> threshold)
            (map (\<lambda>e. \<lparr> annotated_event = e, tickets_sold = tickets_sold_of s e,
                     percentage_tickets_remaining =
                       (100 * (int (the (capacity e)) - tickets_sold_of s e))
                         sdiv int (the (capacity e)) \<rparr>)
              (filter (\<lambda>e. capacity e \<noteq> None) (events s))))"
  using all_rows_positive [OF assms, of s]
  by (simp add: get_events_with_low_capacity_remaining_def)

text \<open>
  What the filter of \<open>get_events_with_low_capacity_remaining\<close> selects by. On a store
  where no capacity is 0 the rows returned are those of the events that have a capacity
  and whose \<^emph>\<open>annotated\<close> percentage, the quotient of the database's integer division,
  is at most the threshold, the bound included; no event without capacity is among
  them. The model lists them in table order.
\<close>

theorem low_capacity_selection:
  assumes "unique_keys s" and "\<forall>e \<in> set (events s). capacity e \<noteq> Some 0"
  shows "\<exists>rows.
           get_events_with_low_capacity_remaining threshold s = Inr rows \<and>
           map annotated_event rows =
             filter (\<lambda>e. case capacity e of
                            None \<Rightarrow> False
                          | Some c \<Rightarrow>
                              (100 * (int c - paid_quantity_of_event s e)) sdiv int c
                                \<le> threshold)
                    (events s) \<and>
           (\<forall>r \<in> set rows.
              percentage_tickets_remaining r \<le> threshold \<and>
              tickets_sold r = paid_quantity_of_event s (annotated_event r) \<and>
              (\<exists>c. capacity (annotated_event r) = Some c \<and>
                   percentage_tickets_remaining r = (100 * (int c - tickets_sold r)) sdiv int c))"
proof -
  let ?row = "\<lambda>e. \<lparr> annotated_event = e, tickets_sold = tickets_sold_of s e,
                     percentage_tickets_remaining =
                       (100 * (int (the (capacity e)) - tickets_sold_of s e))
                         sdiv int (the (capacity e)) \<rparr>"
  let ?rows = "filter (\<lambda>r. percentage_tickets_remaining r \<le> threshold)
                 (map ?row (filter (\<lambda>e. capacity e \<noteq> None) (events s)))"
  have result: "get_events_with_low_capacity_remaining threshold s = Inr ?rows"
    using assms(2) by (rule low_capacity_rows)
  have sold: "tickets_sold_of s e = paid_quantity_of_event s e" for e
    using assms(1) by (rule tickets_sold_of_eq)
  have "map annotated_event ?rows =
          filter (\<lambda>e. percentage_tickets_remaining (?row e) \<le> threshold)
            (filter (\<lambda>e. capacity e \<noteq> None) (events s))"
    by (simp add: filter_map comp_def)
  also have "\<dots> = filter (\<lambda>e. case capacity e of
                            None \<Rightarrow> False
                          | Some c \<Rightarrow>
                              (100 * (int c - paid_quantity_of_event s e)) sdiv int c
                                \<le> threshold)
                    (events s)"
    by (auto simp: sold intro!: filter_cong split: option.splits)
  finally have events: "map annotated_event ?rows =
          filter (\<lambda>e. case capacity e of
                            None \<Rightarrow> False
                          | Some c \<Rightarrow>
                              (100 * (int c - paid_quantity_of_event s e)) sdiv int c
                                \<le> threshold)
                    (events s)" .
  have each: "\<forall>r \<in> set ?rows.
              percentage_tickets_remaining r \<le> threshold \<and>
              tickets_sold r = paid_quantity_of_event s (annotated_event r) \<and>
              (\<exists>c. capacity (annotated_event r) = Some c \<and>
                   percentage_tickets_remaining r = (100 * (int c - tickets_sold r)) sdiv int c)"
    by (auto simp: sold)
  from result events each show ?thesis
    by blast
qed

theorem low_capacity_selection_witness:
  "map_sum id (map (\<lambda>r. (Event_id (annotated_event r), percentage_tickets_remaining r)))
     (get_events_with_low_capacity_remaining 50 sample_store) = Inr [(1, 50), (3, - 20)] \<and>
   map_sum id (map (\<lambda>r. (Event_id (annotated_event r), percentage_tickets_remaining r)))
     (get_events_with_low_capacity_remaining 49 sample_store) = Inr [(3, - 20)] \<and>
   (\<exists>rows.
      get_events_with_low_capacity_remaining 50 sample_store = Inr rows \<and>
      map annotated_event rows =
        filter (\<lambda>e. case capacity e of
                       None \<Rightarrow> False
                     | Some c \<Rightarrow>
                         (100 * (int c - paid_quantity_of_event sample_store e)) sdiv int c
                           \<le> 50)
               (events sample_store))"
proof -
  have positive: "\<forall>e \<in> set (events sample_store). capacity e \<noteq> Some 0"
    by code_simp
  have at_50:
    "map_sum id (map (\<lambda>r. (Event_id (annotated_event r), percentage_tickets_remaining r)))
       (get_events_with_low_capacity_remaining 50 sample_store) = Inr [(1, 50), (3, - 20)]"
    by code_simp
  have at_49:
    "map_sum id (map (\<lambda>r. (Event_id (annotated_event r), percentage_tickets_remaining r)))
       (get_events_with_low_capacity_remaining 49 sample_store) = Inr [(3, - 20)]"
    by code_simp
  show ?thesis
    using low_capacity_selection [OF unique_keys_sample_store positive, of 50] at_50 at_49
    by blast
qed

text \<open>
  C8. The selection goes by the annotated percentage, which the integer division has
  truncated, and so it is not the selection by the percentage of the specification.
  The event of capacity 3 with one paid ticket has the percentage 200/3, which is
  above 66; at the threshold 66 the function returns it all the same, its annotation
  being 66, while the events whose percentage is at most 66 are event 2 alone.
\<close>

theorem low_capacity_selection_by_truncated_percentage:
  "map_sum id (map (\<lambda>r. (Event_id (annotated_event r), percentage_tickets_remaining r)))
     (get_events_with_low_capacity_remaining 66 fraction_store) = Inr [(1, 66), (2, 0)] \<and>
   map Event_id (events_by_exact_percentage 66 fraction_store) = [2] \<and>
   map (paid_quantity_of_event fraction_store) (events fraction_store) = [1, 1001] \<and>
   exact_percentage 3 1 = 200 / 3 \<and> (66 :: rat) < 200 / 3"
proof -
  have returned:
    "map_sum id (map (\<lambda>r. (Event_id (annotated_event r), percentage_tickets_remaining r)))
       (get_events_with_low_capacity_remaining 66 fraction_store) = Inr [(1, 66), (2, 0)]"
    by code_simp
  have sold: "map (paid_quantity_of_event fraction_store) (events fraction_store) = [1, 1001]"
    by code_simp
  have capacities: "map capacity (events fraction_store) = [Some 3, Some 1000]"
    by code_simp
  have ids: "map Event_id (events fraction_store) = [1, 2]"
    by code_simp
  obtain e1 e2 where events: "events fraction_store = [e1, e2]"
    by (simp add: fraction_store_def)
  have exact: "exact_percentage 3 1 = 200 / 3" "exact_percentage 1000 1001 = - 1 / 10"
    by (simp_all add: exact_percentage_def)
  have "map Event_id (events_by_exact_percentage 66 fraction_store) = [2]"
    using sold capacities ids exact
    by (simp add: events_by_exact_percentage_def events)
  with returned sold exact show ?thesis
    by simp
qed

text \<open>
  C10. The division of the annotation is guarded by \<open>capacity__isnull=False\<close> only, and
  a capacity of 0 passes that guard. The query returns a result exactly when every
  capacity is NULL or strictly positive; with an event of capacity 0 in the store the
  division by zero is reached.
\<close>

theorem low_capacity_division_by_zero:
  "((\<exists>rows. get_events_with_low_capacity_remaining threshold s = Inr rows) \<longleftrightarrow>
      (\<forall>e \<in> set (events s). capacity e = None \<or> (\<exists>c. capacity e = Some c \<and> 0 < c))) \<and>
   ((\<exists>e \<in> set (events s). capacity e = Some 0) \<longrightarrow>
      get_events_with_low_capacity_remaining threshold s = Inl DivisionByZero)"
proof -
  have zero: "get_events_with_low_capacity_remaining threshold s = Inl DivisionByZero"
    if "\<exists>e \<in> set (events s). capacity e = Some 0"
  proof -
    from that obtain e where "e \<in> set (events s)" and "capacity e = Some 0"
      by blast
    then show ?thesis
      by (simp add: get_events_with_low_capacity_remaining_def all_rows_zero)
  qed
  have positive: "\<exists>rows. get_events_with_low_capacity_remaining threshold s = Inr rows"
    if "\<forall>e \<in> set (events s). capacity e \<noteq> Some 0"
    using low_capacity_rows [OF that] by simp
  have form: "(capacity e = None \<or> (\<exists>c. capacity e = Some c \<and> 0 < c)) \<longleftrightarrow>
              capacity e \<noteq> Some 0" for e :: Event
    by (cases "capacity e") auto
  have "(\<exists>rows. get_events_with_low_capacity_remaining threshold s = Inr rows) \<longleftrightarrow>
        (\<forall>e \<in> set (events s). capacity e \<noteq> Some 0)"
  proof
    assume returns: "\<exists>rows. get_events_with_low_capacity_remaining threshold s = Inr rows"
    show "\<forall>e \<in> set (events s). capacity e \<noteq> Some 0"
    proof (rule ccontr)
      assume "\<not> (\<forall>e \<in> set (events s). capacity e \<noteq> Some 0)"
      then have "\<exists>e \<in> set (events s). capacity e = Some 0"
        by simp
      then have "get_events_with_low_capacity_remaining threshold s = Inl DivisionByZero"
        by (rule zero)
      with returns show False
        by simp
    qed
  next
    assume "\<forall>e \<in> set (events s). capacity e \<noteq> Some 0"
    then show "\<exists>rows. get_events_with_low_capacity_remaining threshold s = Inr rows"
      by (rule positive)
  qed
  then have "(\<exists>rows. get_events_with_low_capacity_remaining threshold s = Inr rows) \<longleftrightarrow>
      (\<forall>e \<in> set (events s). capacity e = None \<or> (\<exists>c. capacity e = Some c \<and> 0 < c))"
    by (simp only: form)
  with zero show ?thesis
    by simp
qed

theorem low_capacity_division_by_zero_witness:
  "get_events_with_low_capacity_remaining 10 zero_capacity_store = Inl DivisionByZero \<and>
   capacity (hd (events zero_capacity_store)) = Some 0 \<and>
   (\<exists>rows. get_events_with_low_capacity_remaining 10 sample_store = Inr rows)"
proof -
  have zero: "\<exists>e \<in> set (events zero_capacity_store). capacity e = Some 0"
    by code_simp
  have cap: "capacity (hd (events zero_capacity_store)) = Some 0"
    by code_simp
  have positive:
    "\<forall>e \<in> set (events sample_store). capacity e = None \<or> (\<exists>c. capacity e = Some c \<and> 0 < c)"
    by (simp add: sample_store_def mk_event_def)
  show ?thesis
    using low_capacity_division_by_zero [where s = zero_capacity_store and threshold = 10]
      low_capacity_division_by_zero [where s = sample_store and threshold = 10]
      zero cap positive
    by blast
qed

text \<open>
  C2. The percentage of the specification is an exact fraction; the annotation divides
  integers in the database. With a capacity of 3 and one paid ticket the exact percentage of
  the specification is 200/3, and the annotation is 66; with a capacity of 1000 and
  1001 paid tickets the exact percentage is -1/10, and the annotation is 0, which is
  not negative.
\<close>

theorem percentage_is_truncated:
  "map_sum id (map (\<lambda>r. (Event_id (annotated_event r), tickets_sold r,
                         percentage_tickets_remaining r)))
     (get_events_with_low_capacity_remaining 100 fraction_store)
     = Inr [(1, 1, 66), (2, 1001, 0)] \<and>
   exact_percentage 3 1 = 200 / 3 \<and> exact_percentage 1000 1001 = - 1 / 10 \<and>
   map capacity (events fraction_store) = [Some 3, Some 1000]"
proof -
  have annotated:
    "map_sum id (map (\<lambda>r. (Event_id (annotated_event r), tickets_sold r,
                           percentage_tickets_remaining r)))
       (get_events_with_low_capacity_remaining 100 fraction_store)
       = Inr [(1, 1, 66), (2, 1001, 0)]"
    by code_simp
  have exact: "exact_percentage 3 1 = 200 / 3 \<and> exact_percentage 1000 1001 = - 1 / 10"
    by (simp add: exact_percentage_def)
  have capacities: "map capacity (events fraction_store) = [Some 3, Some 1000]"
    by code_simp
  from annotated exact capacities show ?thesis
    by simp
qed

end
